theory Spec2Isabelle
  imports Main
begin

section \<open>Python values shared by the embedded modules\<close>

text \<open>
  Exceptions are values.  The first three are the classes that the embedded code
  distinguishes; \<open>TimeoutError\<close> and \<open>ClientError\<close> stand for what a source
  adapter raises (\<open>asyncio.TimeoutError\<close>, \<open>aiohttp.ClientError\<close>).  These five
  are instances of \<open>Exception\<close>.  \<open>CancelledError\<close> is
  \<open>asyncio.CancelledError\<close>, which derives from \<open>BaseException\<close> only, so that
  \<open>except Exception\<close> does not catch it and \<open>isinstance(e, Exception)\<close> is
  false for it.
\<close>

datatype py_error =
  ValueError | TypeError | AttributeError | TimeoutError | ClientError | CancelledError


text \<open>
  A \<open>datetime\<close> object: the wall-clock fields as microseconds since the epoch, and
  the UTC offset of its \<open>tzinfo\<close> in microseconds (\<open>None\<close> for a naive datetime).
\<close>

record datetime =
  wall_us :: int
  utcoffset_us :: "int option"

text \<open>
  The values a \<open>posted_date\<close> entry can hold: \<open>None\<close>, a string, a datetime, or a
  number (an epoch timestamp).  Dictionaries are association lists read with
  \<open>map_of\<close>.
\<close>

datatype py_val = VNone | VStr string | VDatetime datetime | VInt int

type_synonym py_dict = "(string \<times> py_val) list"

fun truthy :: "py_val \<Rightarrow> bool" where
  "truthy VNone = False"
| "truthy (VStr s) = (s \<noteq> [])"
| "truthy (VDatetime d) = True"
| "truthy (VInt n) = (n \<noteq> 0)"

section \<open>utils/helpers.py\<close>

subsection \<open>chunk\_list\<close>

text \<open>
  \<open>range(start, stop, step)\<close> for natural arguments.  Python raises
  \<open>ValueError\<close> for step 0; the caller below tests that case before the range
  is built, so the equation returns the empty list there only to stay total.
\<close>

function py_range :: "nat \<Rightarrow> nat \<Rightarrow> nat \<Rightarrow> nat list" where
  "py_range start stop step =
     (if step = 0 \<or> stop \<le> start then []
      else start # py_range (start + step) stop step)"
  by pat_completeness auto
termination
  by (relation "measure (\<lambda>(start, stop, step). stop - start)") auto

declare py_range.simps [simp del]

text \<open>The slice \<open>lst[i:j]\<close> for \<open>0 \<le> i \<le> j\<close>; it is cut at the end of the list.\<close>

definition py_slice :: "'a list \<Rightarrow> nat \<Rightarrow> nat \<Rightarrow> 'a list" where
  "py_slice lst i j = take (j - i) (drop i lst)"

text \<open>
  \<open>[lst[i:i + chunk_size] for i in range(0, len(lst), chunk_size)]\<close>.  A negative
  step gives an empty range, step 0 raises.
\<close>

definition chunk_list :: "'a list \<Rightarrow> int \<Rightarrow> py_error + 'a list list" where
  "chunk_list lst chunk_size =
     (if chunk_size = 0 then Inl ValueError
      else if chunk_size < 0 then Inr []
      else Inr (map (\<lambda>i. py_slice lst i (i + nat chunk_size))
                    (py_range 0 (length lst) (nat chunk_size))))"

subsection \<open>filter\_last\_24\_hours\<close>

text \<open>
  An aware datetime denotes the instant \<open>wall - offset\<close>.  The filter turns a
  naive datetime into an aware one with \<open>replace(tzinfo=timezone.utc)\<close>, and
  compares aware datetimes, that is, their instants.
\<close>

definition ensure_utc :: "datetime \<Rightarrow> datetime" where
  "ensure_utc d =
     (if utcoffset_us d = None then d\<lparr>utcoffset_us := Some 0\<rparr> else d)"

definition utc_instant :: "datetime \<Rightarrow> int" where
  "utc_instant d = wall_us d - (case utcoffset_us d of None \<Rightarrow> 0 | Some off \<Rightarrow> off)"

definition hours_24_us :: int where
  "hours_24_us = 24 * 3600 * 1000000"

text \<open>
  The part of the loop body that reads the timestamp of one dictionary:
  \<open>Inr None\<close> is the \<open>continue\<close> (key absent, value falsy, or \<open>ValueError\<close> from
  \<open>datetime.fromisoformat\<close>, which the \<open>except\<close> clause catches),
  \<open>Inr (Some d)\<close> the aware datetime that is compared, and \<open>Inl\<close> an exception
  that the \<open>except (ValueError, TypeError)\<close> clause does not catch: a number has
  no attribute \<open>tzinfo\<close>.  \<open>datetime.fromisoformat\<close> belongs to the standard
  library and is a parameter; \<open>None\<close> is its \<open>ValueError\<close>.
\<close>

definition read_posted ::
  "(string \<Rightarrow> datetime option) \<Rightarrow> py_dict \<Rightarrow> py_error + datetime option" where
  "read_posted fromisoformat internship =
     (case map_of internship ''posted_date'' of
        None \<Rightarrow> Inr None
      | Some v \<Rightarrow>
          if \<not> truthy v then Inr None
          else (case v of
                  VStr s \<Rightarrow>
                    (case fromisoformat s of
                       None \<Rightarrow> Inr None
                     | Some d \<Rightarrow> Inr (Some (ensure_utc d)))
                | VDatetime d \<Rightarrow> Inr (Some (ensure_utc d))
                | _ \<Rightarrow> Inl AttributeError))"

text \<open>
  The loop of \<open>filter_last_24_hours\<close>; \<open>now\<close> is \<open>datetime.now(timezone.utc)\<close> in
  microseconds.  The first uncaught exception leaves the function.
\<close>

fun filter_loop ::
  "int \<Rightarrow> (string \<Rightarrow> datetime option) \<Rightarrow> py_dict list \<Rightarrow> py_error + py_dict list" where
  "filter_loop now fromisoformat [] = Inr []"
| "filter_loop now fromisoformat (internship # rest) =
     (case read_posted fromisoformat internship of
        Inl e \<Rightarrow> Inl e
      | Inr None \<Rightarrow> filter_loop now fromisoformat rest
      | Inr (Some posted) \<Rightarrow>
          (case filter_loop now fromisoformat rest of
             Inl e \<Rightarrow> Inl e
           | Inr recent \<Rightarrow>
               Inr (if utc_instant posted \<ge> now - hours_24_us
                    then internship # recent else recent)))"

definition filter_last_24_hours ::
  "int \<Rightarrow> (string \<Rightarrow> datetime option) \<Rightarrow> py_dict list \<Rightarrow> py_error + py_dict list" where
  "filter_last_24_hours now fromisoformat internships =
     (if internships = [] then Inr []
      else filter_loop now fromisoformat internships)"

subsection \<open>clean\_text\<close>

text \<open>
  Strings are lists of 8-bit characters, read as code points below 256.  In that
  range \<open>str.isspace\<close> holds for 9 to 13, 28 to 32, 133 and 160.
\<close>

definition py_isspace :: "char \<Rightarrow> bool" where
  "py_isspace c =
     (let n = (of_char c :: nat)
      in (9 \<le> n \<and> n \<le> 13) \<or> (28 \<le> n \<and> n \<le> 32) \<or> n = 133 \<or> n = 160)"

definition py_strip :: "string \<Rightarrow> string" where
  "py_strip s = rev (dropWhile py_isspace (rev (dropWhile py_isspace s)))"

text \<open>\<open>text.split()\<close>: the maximal runs of characters that are not whitespace.\<close>

fun py_split :: "string \<Rightarrow> string \<Rightarrow> string list" where
  "py_split word [] = (if word = [] then [] else [rev word])"
| "py_split word (c # cs) =
     (if py_isspace c
      then (if word = [] then py_split [] cs else rev word # py_split [] cs)
      else py_split (c # word) cs)"

fun join_space :: "string list \<Rightarrow> string" where
  "join_space [] = []"
| "join_space [w] = w"
| "join_space (w # ws) = w @ '' '' @ join_space ws"

definition clean_text :: "string \<Rightarrow> string" where
  "clean_text text =
     (if text = [] then []
      else py_strip
             (filter (\<lambda>c. (of_char c :: nat) \<ge> 32 \<or> c \<in> set [CHR 0x0A, CHR 0x0D, CHR 0x09])
                (join_space (py_split [] text))))"

section \<open>models/internship.py\<close>

text \<open>
  The class \<open>Internship\<close>.  \<open>metadata\<close> holds the keyword arguments that are not
  parameters of \<open>__init__\<close>.
\<close>

record internship =
  title :: string
  company :: string
  location :: string
  url :: string
  source :: string
  posted_date :: py_val
  description :: string
  metadata :: py_dict

text \<open>
  \<open>__init__\<close>; \<open>utcnow\<close> is the value of \<open>datetime.utcnow()\<close>, a naive datetime.
  \<open>description\<close> may be \<open>None\<close>.
\<close>

definition Internship_init ::
  "int \<Rightarrow> string \<Rightarrow> string \<Rightarrow> string \<Rightarrow> string \<Rightarrow> string \<Rightarrow> py_val \<Rightarrow> string option
     \<Rightarrow> py_dict \<Rightarrow> internship" where
  "Internship_init utcnow title0 company0 location0 url0 source0 posted_date0 description0 kwargs =
     \<lparr> title = clean_text title0,
       company = clean_text company0,
       location = clean_text location0,
       url = py_strip url0,
       source = source0,
       posted_date =
         (if truthy posted_date0 then posted_date0
          else VDatetime \<lparr>wall_us = utcnow, utcoffset_us = None\<rparr>),
       description = clean_text (case description0 of None \<Rightarrow> [] | Some d \<Rightarrow> d),
       metadata = kwargs \<rparr>"




text \<open>
  \<open>__eq__\<close> and \<open>__hash__\<close>.  The other operand is any object; \<open>hash\<close> on strings
  is Python's and a parameter.
\<close>

datatype py_obj = Obj_Internship internship | Obj_Other

definition internship_eq :: "internship \<Rightarrow> py_obj \<Rightarrow> bool" where
  "internship_eq self other =
     (case other of
        Obj_Other \<Rightarrow> False
      | Obj_Internship o2 \<Rightarrow> url self = url o2)"

definition internship_hash :: "(string \<Rightarrow> int) \<Rightarrow> internship \<Rightarrow> int" where
  "internship_hash str_hash self = str_hash (url self)"

section \<open>External collaborators\<close>

text \<open>
  What the code receives from the remote store and the file system is an argument
  of the operation that asks for it.  A document stream either yields all its
  documents or raises after some of them.  The local mirror is absent, not
  readable as JSON, JSON that is not a list, or a JSON list of URL strings.  Such
  a list is given by the set of its elements: the code reads it only with
  \<open>set.update\<close> and writes \<open>list(seen)\<close>, whose order Python leaves open.
  Writing succeeds, fails before the file is opened (the old content stays),
  or fails in \<open>json.dump\<close> (a truncated file is left).
\<close>

datatype 'a stream = Yields "'a list" | YieldsThenRaises "'a list"

datatype mirror = NoFile | Unreadable | JsonOther | JsonList "string set"

datatype write_outcome = Written | OpenFails | DumpFails

text \<open>
  Every call to the remote store and every write of the mirror is appended to a
  log, whether it succeeds or not; \<open>RemoteSet u ok\<close> is the write of the document
  of \<open>u\<close> and whether it returned.
\<close>

datatype effect =
  RemoteStream | RemoteSet string bool | RemoteQueryOld | RemoteCommit | FileWrite

text \<open>\<open>json.dump(list(seen), f)\<close> on a file opened for writing.\<close>

definition write_mirror :: "write_outcome \<Rightarrow> string set \<Rightarrow> mirror \<Rightarrow> mirror" where
  "write_mirror w seen old =
     (case w of
        Written \<Rightarrow> JsonList seen
      | OpenFails \<Rightarrow> old
      | DumpFails \<Rightarrow> Unreadable)"

section \<open>utils/seen\_jobs.py\<close>

text \<open>
  The module's globals: \<open>_seen_jobs_cache\<close>, whether \<open>_db\<close> is a client (or
  \<open>None\<close>), and the content of \<open>seen_jobs.json\<close>.
\<close>

record seen_jobs_module =
  seen_jobs_cache :: "string set"
  db :: bool
  local_seen_jobs_file :: mirror
  effects :: "effect list"

definition load_local_file :: "seen_jobs_module \<Rightarrow> seen_jobs_module" where
  "load_local_file m =
     (case local_seen_jobs_file m of
        JsonList data \<Rightarrow> m\<lparr>seen_jobs_cache := seen_jobs_cache m \<union> data\<rparr>
      | _ \<Rightarrow> m)"

text \<open>
  \<open>load_seen_jobs\<close>: with a client, the documents are added one by one and the
  function returns; only when the stream raises does it go on to the local file.
\<close>

definition load_seen_jobs :: "string stream \<Rightarrow> seen_jobs_module \<Rightarrow> seen_jobs_module" where
  "load_seen_jobs docs m =
     (if db m then
        (case docs of
           Yields ids \<Rightarrow>
             m\<lparr>seen_jobs_cache := seen_jobs_cache m \<union> set ids,
                effects := effects m @ [RemoteStream]\<rparr>
         | YieldsThenRaises ids \<Rightarrow>
             load_local_file
               (m\<lparr>seen_jobs_cache := seen_jobs_cache m \<union> set ids,
                   effects := effects m @ [RemoteStream]\<rparr>))
      else load_local_file m)"

text \<open>\<open>_save_to_local_file\<close>; its own \<open>except\<close> clause catches a failed write.\<close>

definition save_to_local_file ::
  "write_outcome \<Rightarrow> seen_jobs_module \<Rightarrow> seen_jobs_module" where
  "save_to_local_file w m =
     m\<lparr>local_seen_jobs_file :=
          write_mirror w (seen_jobs_cache m) (local_seen_jobs_file m),
        effects := effects m @ [FileWrite]\<rparr>"

text \<open>
  \<open>mark_seen(url, data)\<close>.  \<open>url\<close> may be \<open>None\<close>; \<open>remote_ok\<close> tells whether
  \<open>doc_ref.set\<close> returns or raises (the exception is caught and logged).
\<close>

definition mark_seen ::
  "bool \<Rightarrow> write_outcome \<Rightarrow> string option \<Rightarrow> py_dict option
     \<Rightarrow> seen_jobs_module \<Rightarrow> seen_jobs_module" where
  "mark_seen remote_ok w url0 data m =
     (case url0 of
        None \<Rightarrow> m
      | Some u \<Rightarrow>
          if u = [] then m
          else
            let m1 = m\<lparr>seen_jobs_cache := insert u (seen_jobs_cache m)\<rparr>;
                m2 = (if db m1 then m1\<lparr>effects := effects m1 @ [RemoteSet u remote_ok]\<rparr> else m1)
            in save_to_local_file w m2)"

definition has_seen :: "string \<Rightarrow> seen_jobs_module \<Rightarrow> bool" where
  "has_seen u m = (u \<in> seen_jobs_cache m)"

text \<open>
  The loop of \<open>cleanup_seen_jobs\<close> over the old documents: each one is put in the
  delete batch and removed from the cache; every 500th commits the batch.
  \<open>commit_ok n\<close> tells whether the commit at count \<open>n\<close> returns; when it raises,
  the loop is left (first component \<open>True\<close>).
\<close>

fun cleanup_loop ::
  "(nat \<Rightarrow> bool) \<Rightarrow> string list \<Rightarrow> nat \<Rightarrow> string set \<Rightarrow> effect list
     \<Rightarrow> bool \<times> nat \<times> string set \<times> effect list" where
  "cleanup_loop commit_ok [] count cache log = (False, count, cache, log)"
| "cleanup_loop commit_ok (doc # docs) count cache log =
     (let cache1 = cache - {doc};
          count1 = count + 1
      in if count1 mod 500 = 0
         then (if commit_ok count1
               then cleanup_loop commit_ok docs count1 cache1 (log @ [RemoteCommit])
               else (True, count1, cache1, log @ [RemoteCommit]))
         else cleanup_loop commit_ok docs count1 cache1 log)"

text \<open>
  \<open>cleanup_seen_jobs\<close>: \<open>old_docs\<close> is the stream of the documents whose
  \<open>seen_at\<close> is before the cutoff.  Every exception is caught and logged.
\<close>

definition cleanup_seen_jobs ::
  "string stream \<Rightarrow> (nat \<Rightarrow> bool) \<Rightarrow> seen_jobs_module \<Rightarrow> seen_jobs_module" where
  "cleanup_seen_jobs old_docs commit_ok m =
     (if \<not> db m then m
      else
        let (complete, ids) =
              (case old_docs of Yields ds \<Rightarrow> (True, ds) | YieldsThenRaises ds \<Rightarrow> (False, ds));
            (raised, count, cache1, log1) =
              cleanup_loop commit_ok ids 0 (seen_jobs_cache m) (effects m @ [RemoteQueryOld]);
            log2 = (if \<not> raised \<and> complete \<and> count mod 500 \<noteq> 0
                    then log1 @ [RemoteCommit] else log1)
        in m\<lparr>seen_jobs_cache := cache1, effects := log2\<rparr>)"

definition close_seen_jobs ::
  "write_outcome \<Rightarrow> seen_jobs_module \<Rightarrow> seen_jobs_module" where
  "close_seen_jobs w m = (save_to_local_file w m)\<lparr>db := False\<rparr>"

section \<open>fetchers/base\_fetcher.py\<close>

text \<open>
  \<open>self.seen_jobs\<close> is \<open>None\<close> or, after \<open>initialize\<close>, the module's cache object
  itself: \<open>seen_jobs_bound\<close> tells which.
\<close>

record base_fetcher =
  source_name :: string
  max_days_old :: int
  seen_jobs_bound :: bool

text \<open>\<open>BaseFetcher.cleanup\<close>; \<open>if self.seen_jobs\<close> holds for a bound, non-empty cache.\<close>

definition fetcher_cleanup ::
  "string stream \<Rightarrow> (nat \<Rightarrow> bool) \<Rightarrow> write_outcome
     \<Rightarrow> base_fetcher \<Rightarrow> seen_jobs_module \<Rightarrow> seen_jobs_module" where
  "fetcher_cleanup old_docs commit_ok w self m =
     (if seen_jobs_bound self \<and> seen_jobs_cache m \<noteq> {}
      then close_seen_jobs w (cleanup_seen_jobs old_docs commit_ok m)
      else m)"

text \<open>
  The operations of the store as the adapters use it, each with what the
  collaborators answer, and a run of them.
\<close>

datatype store_op =
    Hydrate "string stream"
  | HasSeen string
  | MarkSeen bool write_outcome "string option" "py_dict option"
  | Cleanup base_fetcher "string stream" "nat \<Rightarrow> bool" write_outcome

fun apply_op ::
  "store_op \<Rightarrow> seen_jobs_module \<Rightarrow> seen_jobs_module" where
  "apply_op (Hydrate docs) m = load_seen_jobs docs m"
| "apply_op (HasSeen u) m = m"
| "apply_op (MarkSeen remote_ok w u data) m = mark_seen remote_ok w u data m"
| "apply_op (Cleanup f old_docs commit_ok w) m =
     fetcher_cleanup old_docs commit_ok w f m"

fun is_cleanup :: "store_op \<Rightarrow> bool" where
  "is_cleanup (Cleanup f old_docs commit_ok w) = True"
| "is_cleanup _ = False"

definition run_ops ::
  "store_op list \<Rightarrow> seen_jobs_module \<Rightarrow> seen_jobs_module" where
  "run_ops ops m = fold apply_op ops m"

section \<open>bot.py\<close>

text \<open>
  The state of \<open>InternshipFinderBot\<close> that the store operations touch:
  \<open>self.seen_urls\<close>, the content of \<open>seen_urls.json\<close>, and the log of calls.
\<close>

record bot =
  seen_urls :: "string set"
  seen_urls_file :: mirror
  bot_effects :: "effect list"

text \<open>
  \<open>_load_seen_urls\<close>.  \<open>docs\<close> is what \<open>self.collection.stream()\<close> gives;
  \<open>_fetch_ids\<close> turns a raising stream into the empty set.  \<open>thread_ok\<close> is
  \<open>False\<close> when \<open>asyncio.to_thread\<close> itself raises, which the outer \<open>except\<close>
  catches.  \<open>w\<close> is the outcome of saving the merged set.
\<close>

definition load_seen_urls ::
  "string stream \<Rightarrow> bool \<Rightarrow> write_outcome \<Rightarrow> bot \<Rightarrow> bot" where
  "load_seen_urls docs thread_ok w self =
     (let (seen0, loaded_from_local) =
            (case seen_urls_file self of
               JsonList data \<Rightarrow> ({} \<union> data, True)
             | _ \<Rightarrow> ({}, False));
          self1 = self\<lparr>seen_urls := seen0\<rparr>
      in if \<not> thread_ok then self1
         else
           let ids = (case docs of Yields ds \<Rightarrow> set ds | YieldsThenRaises ds \<Rightarrow> {});
               self2 = self1\<lparr>bot_effects := bot_effects self1 @ [RemoteStream]\<rparr>
           in if ids = {} then self2
              else
                let original_count = card seen0;
                    merged = seen0 \<union> ids;
                    new_count = int (card merged) - int original_count
                in if loaded_from_local \<and> new_count > 0
                   then self2\<lparr>seen_urls := merged,
                              seen_urls_file :=
                                write_mirror w merged (seen_urls_file self2),
                              bot_effects := bot_effects self2 @ [FileWrite]\<rparr>
                   else self2\<lparr>seen_urls := merged\<rparr>)"


text \<open>
  \<open>save_internship\<close>: the remote write (its exception is caught), the addition
  to the cache, the rewrite of the local file (its exception is caught).
\<close>

definition save_internship ::
  "bool \<Rightarrow> write_outcome \<Rightarrow> internship \<Rightarrow> bot \<Rightarrow> bot" where
  "save_internship remote_ok w i self =
     (let self1 = self\<lparr>bot_effects := bot_effects self @ [RemoteSet (url i) remote_ok]\<rparr>;
          self2 = self1\<lparr>seen_urls := insert (url i) (seen_urls self1)\<rparr>
      in self2\<lparr>seen_urls_file :=
                  write_mirror w (seen_urls self2) (seen_urls_file self2),
                bot_effects := bot_effects self2 @ [FileWrite]\<rparr>)"






text \<open>
  \<open>send_telegram_notification\<close>: the payloads handed to \<open>session.post\<close>, in
  order.  A payload is the chunk numbered from 1 and the footer choice.  The
  \<open>try\<close> inside the loop catches a failed post, so every chunk is posted.
  The environment variables may be unset or empty.
\<close>

definition send_telegram_notification ::
  "string option \<Rightarrow> string option \<Rightarrow> 'a list \<Rightarrow> bool
     \<Rightarrow> py_error + ((nat \<times> 'a) list \<times> bool) list" where
  "send_telegram_notification bot_token chat_id internships is_daily_update =
     (if internships = [] then Inr []
      else if bot_token = None \<or> bot_token = Some [] \<or> chat_id = None \<or> chat_id = Some []
      then Inr []
      else (case chunk_list internships 5 of
              Inl e \<Rightarrow> Inl e
            | Inr chunks \<Rightarrow>
                Inr (map (\<lambda>chunk. (zip [1 ..< Suc (length chunk)] chunk, is_daily_update))
                         chunks)))"



section \<open>Batching\<close>

lemma ceil_div_step:
  fixes a k :: nat
  assumes "0 < k" "0 < a"
  shows "(a + k - 1) div k = Suc ((a - k + k - 1) div k)"
proof -
  obtain b where b: "a = Suc b" using assms(2) by (cases a) auto
  have "(b + k) div k = Suc (b div k)" using assms(1) by (simp add: div_add_self2)
  then have l: "(a + k - 1) div k = Suc (b div k)" using b by simp
  show ?thesis
  proof (cases "k \<le> a")
    case True
    then have "a - k + k - 1 = b" using b by simp
    with l show ?thesis by simp
  next
    case False
    then have "a - k + k - 1 = k - 1" "b < k" using b by simp_all
    with l assms(1) show ?thesis by simp
  qed
qed

lemma py_range_length:
  "0 < k \<Longrightarrow> length (py_range s n k) = (n - s + k - 1) div k"
proof (induction s n k rule: py_range.induct)
  case (1 start stop step)
  show ?case
  proof (cases "stop \<le> start")
    case True
    with 1(2) show ?thesis by (simp add: py_range.simps)
  next
    case False
    then have "(stop - start + step - 1) div step = Suc ((stop - start - step + step - 1) div step)"
      using ceil_div_step [of step "stop - start"] 1(2) by simp
    moreover have "length (py_range (start + step) stop step) = (stop - (start + step) + step - 1) div step"
      using 1 False by simp
    ultimately show ?thesis using False 1(2)
      by (subst py_range.simps) simp
  qed
qed

lemma py_range_nth:
  "0 < k \<Longrightarrow> i < length (py_range s n k) \<Longrightarrow> py_range s n k ! i = s + i * k"
proof (induction s n k arbitrary: i rule: py_range.induct)
  case (1 start stop step)
  from 1(3) have ns: "\<not> stop \<le> start" by (auto simp: py_range.simps split: if_splits)
  then have unf: "py_range start stop step = start # py_range (start + step) stop step"
    using 1(2) by (subst py_range.simps) simp
  show ?case
  proof (cases i)
    case 0
    then show ?thesis using unf by simp
  next
    case (Suc j)
    then have "j < length (py_range (start + step) stop step)" using 1(3) unf by simp
    then have "py_range (start + step) stop step ! j = start + step + j * step"
      using 1(1) [of j] 1(2) ns by simp
    then show ?thesis using unf Suc by simp
  qed
qed

lemma py_range_concat:
  "0 < k \<Longrightarrow> concat (map (\<lambda>i. py_slice xs i (i + k)) (py_range s (length xs) k)) = drop s xs"
proof (induction s "length xs" k rule: py_range.induct)
  case (1 start step)
  show ?case
  proof (cases "length xs \<le> start")
    case True
    then show ?thesis by (simp add: py_range.simps)
  next
    case False
    with 1 have "concat (map (\<lambda>i. py_slice xs i (i + step)) (py_range (start + step) (length xs) step)) = drop (start + step) xs"
      by simp
    with False 1(2) show ?thesis
      apply (subst py_range.simps)
      apply (simp add: py_slice_def)
      by (metis add.commute append_take_drop_id drop_drop)
  qed
qed

lemma chunk_list_pos:
  assumes "0 < k"
  shows "chunk_list lst (int k) = Inr (map (\<lambda>i. py_slice lst i (i + k)) (py_range 0 (length lst) k))"
  using assms by (simp add: chunk_list_def)

lemma chunk_list_5_props:
  fixes lst :: "'a list"
  defines "cs \<equiv> map (\<lambda>i. py_slice lst i (i + 5)) (py_range 0 (length lst) 5)"
  shows "chunk_list lst 5 = Inr cs"
    and "length cs = (length lst + 4) div 5"
    and "concat cs = lst"
    and "\<forall>i < length cs. length (cs ! i) = (if Suc i < length cs then 5 else length lst - 5 * i)"
    and "\<forall>c \<in> set cs. 1 \<le> length c \<and> length c \<le> 5"
proof -
  show a: "chunk_list lst 5 = Inr cs"
    using chunk_list_pos [of 5 lst] by (simp add: cs_def)
  show l: "length cs = (length lst + 4) div 5"
    by (simp add: cs_def py_range_length)
  show "concat cs = lst"
    using py_range_concat [of 5 lst 0] by (simp add: cs_def)
  have nth: "length (cs ! i) = min 5 (length lst - 5 * i)" if "i < length cs" for i
  proof -
    have "i < length (py_range 0 (length lst) 5)" using that by (simp add: cs_def)
    then have "cs ! i = py_slice lst (i * 5) (i * 5 + 5)"
      using py_range_nth [of 5 i 0 "length lst"] by (simp add: cs_def)
    then show ?thesis by (simp add: py_slice_def mult.commute)
  qed
  show n: "\<forall>i < length cs. length (cs ! i) = (if Suc i < length cs then 5 else length lst - 5 * i)"
  proof (intro allI impI)
    fix i assume i: "i < length cs"
    show "length (cs ! i) = (if Suc i < length cs then 5 else length lst - 5 * i)"
      using nth [OF i] i l by (auto simp: min_def)
  qed
  show "\<forall>c \<in> set cs. 1 \<le> length c \<and> length c \<le> 5"
  proof
    fix c assume "c \<in> set cs"
    then obtain i where i: "i < length cs" "c = cs ! i" by (auto simp: in_set_conv_nth)
    then show "1 \<le> length c \<and> length c \<le> 5"
      using nth [OF i(1)] l by (auto simp: min_def)
  qed
qed

text \<open>
  Claim C5.  Chunking a list of \<open>n\<close> fresh records with batch size 5 gives
  \<open>ceil(n/5)\<close> batches whose concatenation in order is the list; every batch
  but the last has exactly 5 records and the last has between 1 and 5; 12 records
  give batches of sizes 5, 5, 2.  When the sink is configured, the payloads are
  posted one per batch, in that order.
\<close>

theorem chunk_list_batches:
  "\<exists>cs. chunk_list lst 5 = Inr cs
     \<and> length cs = (length lst + 4) div 5
     \<and> concat cs = lst
     \<and> (\<forall>i < length cs. length (cs ! i) = (if Suc i < length cs then 5 else length lst - 5 * i))
     \<and> (\<forall>c \<in> set cs. 1 \<le> length c \<and> length c \<le> 5)
     \<and> (length lst = 12 \<longrightarrow> map length cs = [5, 5, 2])
     \<and> (lst \<noteq> [] \<and> tok \<noteq> [] \<and> chat \<noteq> [] \<longrightarrow>
          (\<exists>posts. send_telegram_notification (Some tok) (Some chat) lst daily = Inr posts
             \<and> map (\<lambda>p. map snd (fst p)) posts = cs))"
proof -
  define cs where "cs = map (\<lambda>i. py_slice lst i (i + 5)) (py_range 0 (length lst) 5)"
  note p = chunk_list_5_props [of lst, folded cs_def]
  have twelve: "map length cs = [5, 5, 2]" if "length lst = 12"
  proof -
    have len: "length cs = 3" using p(2) that by simp
    have "map length cs = map length (map (\<lambda>i. cs ! i) [0 ..< length cs])"
      by (simp only: map_nth)
    also have "\<dots> = map (\<lambda>i. length (cs ! i)) [0 ..< length cs]"
      by (simp only: map_map o_def)
    also have "\<dots> = [length (cs ! 0), length (cs ! 1), length (cs ! 2)]"
    proof -
      have "[0 ..< 3 :: nat] = [0, 1, 2]" by code_simp
      then show ?thesis using len by simp
    qed
    finally show ?thesis using p(4) len that by simp
  qed
  have send: "\<exists>posts. send_telegram_notification (Some tok) (Some chat) lst daily = Inr posts
             \<and> map (\<lambda>p. map snd (fst p)) posts = cs"
    if "lst \<noteq> []" "tok \<noteq> []" "chat \<noteq> []"
  proof -
    have "map snd (zip [1 ..< Suc (length c)] c) = c" for c :: "'a list"
      by (rule map_snd_zip) (simp del: upt_Suc)
    then show ?thesis
      using that p(1) by (simp add: send_telegram_notification_def o_def del: upt_Suc)
  qed
  show ?thesis
  proof (intro exI [of _ cs] conjI impI)
    show "chunk_list lst 5 = Inr cs" by (rule p(1))
    show "length cs = (length lst + 4) div 5" by (rule p(2))
    show "concat cs = lst" by (rule p(3))
    show "\<forall>i<length cs. length (cs ! i) = (if Suc i < length cs then 5 else length lst - 5 * i)"
      by (rule p(4))
    show "\<forall>c\<in>set cs. 1 \<le> length c \<and> length c \<le> 5" by (rule p(5))
    show "map length cs = [5, 5, 2]" if "length lst = 12" using that by (rule twelve)
    show "\<exists>posts. send_telegram_notification (Some tok) (Some chat) lst daily = Inr posts
             \<and> map (\<lambda>p. map snd (fst p)) posts = cs"
      if "lst \<noteq> [] \<and> tok \<noteq> [] \<and> chat \<noteq> []"
      using that send by blast
  qed
qed

theorem chunk_list_batches_witness:
  "\<exists>cs. chunk_list [1, 2, 3, 4, 5, 6, 7, 8, 9, 10, 11, 12 :: nat] 5 = Inr cs
     \<and> cs = [[1, 2, 3, 4, 5], [6, 7, 8, 9, 10], [11, 12]]
     \<and> length cs = 3 \<and> concat cs = [1, 2, 3, 4, 5, 6, 7, 8, 9, 10, 11, 12]
     \<and> map length cs = [5, 5, 2]"
  using chunk_list_batches [of "[1, 2, 3, 4, 5, 6, 7, 8, 9, 10, 11, 12 :: nat]" "''t''" "''c''" True]
  by (simp add: chunk_list_def py_range.simps py_slice_def)

section \<open>Recency window\<close>

lemma filter_loop_mem:
  "filter_loop now f ds = Inr rs \<Longrightarrow>
     d \<in> set rs \<longleftrightarrow>
       d \<in> set ds \<and> (\<exists>p. read_posted f d = Inr (Some p) \<and> utc_instant p \<ge> now - hours_24_us)"
proof (induction ds arbitrary: rs)
  case Nil
  then show ?case by simp
next
  case (Cons x xs)
  show ?case
  proof (cases "read_posted f x")
    case (Inl e)
    with Cons.prems show ?thesis by simp
  next
    case (Inr r)
    show ?thesis
    proof (cases r)
      case None
      with Inr Cons.prems have "filter_loop now f xs = Inr rs" by simp
      from Cons.IH [OF this] Inr None show ?thesis by auto
    next
      case (Some p)
      with Inr Cons.prems obtain rs' where
        rs': "filter_loop now f xs = Inr rs'"
        and rs: "rs = (if utc_instant p \<ge> now - hours_24_us then x # rs' else rs')"
        by (auto split: sum.splits)
      from Cons.IH [OF rs'] rs Inr Some show ?thesis by auto
    qed
  qed
qed

lemma filter_last_24_hours_mem:
  assumes "filter_last_24_hours now f ds = Inr rs"
  shows "d \<in> set rs \<longleftrightarrow>
       d \<in> set ds \<and> (\<exists>p. read_posted f d = Inr (Some p) \<and> utc_instant p \<ge> now - hours_24_us)"
proof (cases "ds = []")
  case True
  with assms show ?thesis by (simp add: filter_last_24_hours_def)
next
  case False
  with assms have "filter_loop now f ds = Inr rs" by (simp add: filter_last_24_hours_def)
  then show ?thesis by (rule filter_loop_mem)
qed

lemma utc_instant_ensure_utc: "utc_instant (ensure_utc dt) = utc_instant dt"
  by (simp add: utc_instant_def ensure_utc_def)

lemma read_posted_datetime:
  assumes "map_of d ''posted_date'' = Some (VDatetime dt)
           \<or> (\<exists>s. s \<noteq> [] \<and> map_of d ''posted_date'' = Some (VStr s) \<and> f s = Some dt)"
  shows "read_posted f d = Inr (Some (ensure_utc dt))"
  using assms by (auto simp: read_posted_def)


text \<open>
  Claim C4.  With the filter evaluated at time \<open>now\<close>, a dictionary whose
  posted timestamp (a datetime, or a string that \<open>fromisoformat\<close> reads)
  denotes the instant 24 hours and 1 second before \<open>now\<close> is not in the result,
  and one whose timestamp is 23 hours 59 minutes before \<open>now\<close> is in it.
\<close>

theorem recency_boundary:
  assumes "filter_last_24_hours now fromisoformat ds = Inr recent"
    and "d \<in> set ds"
    and "map_of d ''posted_date'' = Some (VDatetime dt)
         \<or> (\<exists>s. s \<noteq> [] \<and> map_of d ''posted_date'' = Some (VStr s) \<and> fromisoformat s = Some dt)"
  shows "(utc_instant dt = now - (24 * 3600 + 1) * 1000000 \<longrightarrow> d \<notin> set recent)
       \<and> (utc_instant dt = now - (23 * 3600 + 59 * 60) * 1000000 \<longrightarrow> d \<in> set recent)"
proof -
  have r: "read_posted fromisoformat d = Inr (Some (ensure_utc dt))"
    using assms(3) by (rule read_posted_datetime)
  have "d \<in> set recent \<longleftrightarrow> utc_instant dt \<ge> now - hours_24_us"
    using filter_last_24_hours_mem [OF assms(1), of d] assms(2) r
    by (simp add: utc_instant_ensure_utc)
  then show ?thesis by (simp add: hours_24_us_def)
qed

theorem recency_boundary_witness:
  "filter_last_24_hours 1700000000000000 Map.empty
     [ [(''url'', VStr ''u1''),
        (''posted_date'', VDatetime \<lparr>wall_us = 1700000000000000 - (24 * 3600 + 1) * 1000000,
                                       utcoffset_us = None\<rparr>)],
       [(''url'', VStr ''u2''),
        (''posted_date'', VDatetime \<lparr>wall_us = 1700000000000000 - (23 * 3600 + 59 * 60) * 1000000,
                                       utcoffset_us = Some 0\<rparr>)] ]
   = Inr [ [(''url'', VStr ''u2''),
        (''posted_date'', VDatetime \<lparr>wall_us = 1700000000000000 - (23 * 3600 + 59 * 60) * 1000000,
                                       utcoffset_us = Some 0\<rparr>)] ]
   \<and> [(''url'', VStr ''u1''),
        (''posted_date'', VDatetime \<lparr>wall_us = 1700000000000000 - (24 * 3600 + 1) * 1000000,
                                       utcoffset_us = None\<rparr>)]
      \<notin> set [ [(''url'', VStr ''u2''),
        (''posted_date'', VDatetime \<lparr>wall_us = 1700000000000000 - (23 * 3600 + 59 * 60) * 1000000,
                                       utcoffset_us = Some 0\<rparr>)] ]"
proof -
  let ?now = "1700000000000000 :: int"
  let ?dt1 = "\<lparr>wall_us = ?now - (24 * 3600 + 1) * 1000000, utcoffset_us = None\<rparr>"
  let ?dt2 = "\<lparr>wall_us = ?now - (23 * 3600 + 59 * 60) * 1000000, utcoffset_us = Some 0\<rparr>"
  let ?d1 = "[(''url'', VStr ''u1''), (''posted_date'', VDatetime ?dt1)]"
  let ?d2 = "[(''url'', VStr ''u2''), (''posted_date'', VDatetime ?dt2)]"
  have f: "filter_last_24_hours ?now Map.empty [?d1, ?d2] = Inr [?d2]"
    by (simp add: filter_last_24_hours_def read_posted_def ensure_utc_def utc_instant_def
        hours_24_us_def)
  have m: "?d1 \<in> set [?d1, ?d2]" by simp
  have p: "map_of ?d1 ''posted_date'' = Some (VDatetime ?dt1)
         \<or> (\<exists>s. s \<noteq> [] \<and> map_of ?d1 ''posted_date'' = Some (VStr s) \<and> Map.empty s = Some ?dt1)"
    by simp
  have i: "utc_instant ?dt1 = ?now - (24 * 3600 + 1) * 1000000"
    by (simp add: utc_instant_def)
  from recency_boundary [OF f m p] i have "?d1 \<notin> set [?d2]" by blast
  with f show ?thesis by blast
qed

section \<open>Missing and unparseable timestamps\<close>








section \<open>Hydration\<close>

lemma load_seen_urls_union:
  assumes "seen_urls_file self = JsonList L" and "thread_ok"
  shows "seen_urls (load_seen_urls (Yields R) thread_ok w self) = L \<union> set R"
proof (cases "set R = {}")
  case True
  with assms show ?thesis by (simp add: load_seen_urls_def)
next
  case False
  with assms show ?thesis by (simp add: load_seen_urls_def Let_def)
qed

lemma load_seen_jobs_db:
  "db m \<Longrightarrow> seen_jobs_cache (load_seen_jobs (Yields R) m) = seen_jobs_cache m \<union> set R"
  by (simp add: load_seen_jobs_def)

lemma load_seen_jobs_nodb:
  "\<not> db m \<Longrightarrow> local_seen_jobs_file m = JsonList L \<Longrightarrow>
     seen_jobs_cache (load_seen_jobs docs m) = seen_jobs_cache m \<union> L"
  by (simp add: load_seen_jobs_def load_local_file_def)

lemma load_seen_jobs_raises:
  "db m \<Longrightarrow> local_seen_jobs_file m = JsonList L \<Longrightarrow>
     seen_jobs_cache (load_seen_jobs (YieldsThenRaises R) m) = seen_jobs_cache m \<union> set R \<union> L"
  by (simp add: load_seen_jobs_def load_local_file_def)


text \<open>
  Claim C1, as amended.  The orchestrator's hydration (\<open>_load_seen_urls\<close>) of a
  local mirror holding the list \<open>L\<close> and a remote store enumerating \<open>R\<close> gives
  the union of \<open>L\<close> and \<open>R\<close>.  The hydration of the seen-jobs module
  (\<open>load_seen_jobs\<close>) adds \<open>R\<close> alone to its cache when the remote client is there
  and the enumeration completes; it adds \<open>L\<close> when there is no client, and both
  what was enumerated and \<open>L\<close> when the enumeration raises.
\<close>

theorem hydration_union:
  "(seen_urls_file self = JsonList L \<and> thread_ok \<longrightarrow>
      seen_urls (load_seen_urls (Yields R) thread_ok w self) = L \<union> set R)
   \<and> (db m \<longrightarrow>
        seen_jobs_cache (load_seen_jobs (Yields R) m) = seen_jobs_cache m \<union> set R)
   \<and> (\<not> db m \<and> local_seen_jobs_file m = JsonList L \<longrightarrow>
        seen_jobs_cache (load_seen_jobs docs m) = seen_jobs_cache m \<union> L)
   \<and> (db m \<and> local_seen_jobs_file m = JsonList L \<longrightarrow>
        seen_jobs_cache (load_seen_jobs (YieldsThenRaises R) m) = seen_jobs_cache m \<union> set R \<union> L)"
  using load_seen_urls_union [of self L thread_ok R w] load_seen_jobs_db [of m R]
    load_seen_jobs_nodb [of m L docs] load_seen_jobs_raises [of m L R]
  by blast

lemma ex_sets:
  "{''a'', ''b''} \<union> set [''b'', ''c''] = {''a'', ''b'', ''c''}"
  by (simp add: insert_commute)

theorem hydration_union_witness:
  "seen_urls (load_seen_urls (Yields [''b'', ''c'']) True Written
       \<lparr>seen_urls = {}, seen_urls_file = JsonList {''a'', ''b''}, bot_effects = []\<rparr>)
     = {''a'', ''b'', ''c''}
   \<and> seen_jobs_cache (load_seen_jobs (Yields [''b'', ''c''])
       \<lparr>seen_jobs_cache = {}, db = True, local_seen_jobs_file = JsonList {''a'', ''b''},
        effects = []\<rparr>) = {''b'', ''c''}
   \<and> seen_jobs_cache (load_seen_jobs (Yields [''b'', ''c''])
       \<lparr>seen_jobs_cache = {}, db = False, local_seen_jobs_file = JsonList {''a'', ''b''},
        effects = []\<rparr>) = {''a'', ''b''}"
proof -
  let ?b = "\<lparr>seen_urls = {}, seen_urls_file = JsonList {''a'', ''b''}, bot_effects = []\<rparr>"
  let ?m1 = "\<lparr>seen_jobs_cache = {}, db = True, local_seen_jobs_file = JsonList {''a'', ''b''},
        effects = []\<rparr>"
  let ?m2 = "\<lparr>seen_jobs_cache = {}, db = False, local_seen_jobs_file = JsonList {''a'', ''b''},
        effects = []\<rparr>"
  note t1 = hydration_union [of ?b "{''a'', ''b''}" True "[''b'', ''c'']" Written ?m1 "Yields []"]
  note t2 = hydration_union [of ?b "{''a'', ''b''}" True "[''b'', ''c'']" Written ?m2
      "Yields [''b'', ''c'']"]
  have h1: "seen_urls_file ?b = JsonList {''a'', ''b''} \<and> True" by simp
  have h2: "db ?m1" by simp
  have h3: "\<not> db ?m2 \<and> local_seen_jobs_file ?m2 = JsonList {''a'', ''b''}" by simp
  have "seen_urls (load_seen_urls (Yields [''b'', ''c'']) True Written ?b)
      = {''a'', ''b''} \<union> set [''b'', ''c'']"
    by (rule mp [OF conjunct1 [OF t1] h1])
  then have c1: "seen_urls (load_seen_urls (Yields [''b'', ''c'']) True Written ?b)
      = {''a'', ''b'', ''c''}" by (simp only: ex_sets)
  have "seen_jobs_cache (load_seen_jobs (Yields [''b'', ''c'']) ?m1)
      = seen_jobs_cache ?m1 \<union> set [''b'', ''c'']"
    by (rule mp [OF conjunct1 [OF conjunct2 [OF t1]] h2])
  then have c2: "seen_jobs_cache (load_seen_jobs (Yields [''b'', ''c'']) ?m1) = {''b'', ''c''}"
    by simp
  have "seen_jobs_cache (load_seen_jobs (Yields [''b'', ''c'']) ?m2)
      = seen_jobs_cache ?m2 \<union> {''a'', ''b''}"
    by (rule mp [OF conjunct1 [OF conjunct2 [OF conjunct2 [OF t2]]] h3])
  then have c3: "seen_jobs_cache (load_seen_jobs (Yields [''b'', ''c'']) ?m2) = {''a'', ''b''}"
    by simp
  show ?thesis by (intro conjI c1 c2 c3)
qed

text \<open>
  Claim C1 as stated fails for \<open>load_seen_jobs\<close>: with the local mirror
  \<open>{a, b}\<close> and the remote store \<open>{b, c}\<close> the cache is \<open>{b, c}\<close>; \<open>a\<close> is not
  in it.
\<close>

theorem hydration_union_counterexample:
  "seen_jobs_cache (load_seen_jobs (Yields [''b'', ''c''])
       \<lparr>seen_jobs_cache = {}, db = True, local_seen_jobs_file = JsonList {''a'', ''b''},
        effects = []\<rparr>) = {''b'', ''c''}
   \<and> ''a'' \<notin> seen_jobs_cache (load_seen_jobs (Yields [''b'', ''c''])
       \<lparr>seen_jobs_cache = {}, db = True, local_seen_jobs_file = JsonList {''a'', ''b''},
        effects = []\<rparr>)"
  by (simp add: load_seen_jobs_def)

section \<open>Additions and removals of the store\<close>

lemma cleanup_loop_cache:
  "cleanup_loop ok ds n c l = (r, n', c', l') \<Longrightarrow> c' \<subseteq> c \<and> c - set ds \<subseteq> c'"
proof (induction ds arbitrary: n c l)
  case Nil
  then show ?case by simp
next
  case (Cons d ds)
  show ?case
  proof (cases "Suc n mod 500 = 0 \<and> \<not> ok (Suc n)")
    case True
    with Cons.prems have "c' = c - {d}" by (simp add: Let_def)
    then show ?thesis by auto
  next
    case False
    then obtain l1 where "cleanup_loop ok ds (Suc n) (c - {d}) l1 = (r, n', c', l')"
      using Cons.prems by (auto simp: Let_def split: if_splits)
    from Cons.IH [OF this] show ?thesis by auto
  qed
qed

lemma cleanup_loop_all_ok:
  "cleanup_loop ok ds n c l = (r, n', c', l') \<Longrightarrow> (\<And>k. ok k) \<Longrightarrow> c' = c - set ds"
proof (induction ds arbitrary: n c l)
  case Nil
  then show ?case by simp
next
  case (Cons d ds)
  have okn: "ok (Suc n)" by (rule Cons.prems(2))
  have "\<exists>l1. cleanup_loop ok ds (Suc n) (c - {d}) l1 = (r, n', c', l')"
  proof (cases "Suc n mod 500 = 0")
    case True
    with Cons.prems(1) okn
    have "cleanup_loop ok ds (Suc n) (c - {d}) (l @ [RemoteCommit]) = (r, n', c', l')"
      by (simp add: Let_def)
    then show ?thesis ..
  next
    case False
    with Cons.prems(1) have "cleanup_loop ok ds (Suc n) (c - {d}) l = (r, n', c', l')"
      by (simp add: Let_def)
    then show ?thesis ..
  qed
  then obtain l1 where "cleanup_loop ok ds (Suc n) (c - {d}) l1 = (r, n', c', l')" ..
  from Cons.IH [OF this Cons.prems(2)] show ?case by auto
qed

lemma cleanup_seen_jobs_cache:
  "seen_jobs_cache (cleanup_seen_jobs old ok m) \<subseteq> seen_jobs_cache m
   \<and> seen_jobs_cache m - set (case old of Yields ds \<Rightarrow> ds | YieldsThenRaises ds \<Rightarrow> ds)
       \<subseteq> seen_jobs_cache (cleanup_seen_jobs old ok m)"
proof (cases "db m")
  case False
  then show ?thesis by (simp add: cleanup_seen_jobs_def)
next
  case True
  define ids where "ids = (case old of Yields ds \<Rightarrow> ds | YieldsThenRaises ds \<Rightarrow> ds)"
  obtain r n' c' l' where
    loop: "cleanup_loop ok ids 0 (seen_jobs_cache m) (effects m @ [RemoteQueryOld]) = (r, n', c', l')"
    by (metis prod_cases4)
  have "seen_jobs_cache (cleanup_seen_jobs old ok m) = c'"
    using True loop by (cases old) (simp_all add: cleanup_seen_jobs_def ids_def)
  with cleanup_loop_cache [OF loop] show ?thesis by (simp add: ids_def)
qed

lemma cleanup_seen_jobs_exact:
  assumes "db m" and "\<And>k. ok k"
  shows "seen_jobs_cache (cleanup_seen_jobs (Yields ids) ok m) = seen_jobs_cache m - set ids"
proof -
  obtain r n' c' l' where
    loop: "cleanup_loop ok ids 0 (seen_jobs_cache m) (effects m @ [RemoteQueryOld]) = (r, n', c', l')"
    by (metis prod_cases4)
  have "seen_jobs_cache (cleanup_seen_jobs (Yields ids) ok m) = c'"
    using assms(1) loop by (simp add: cleanup_seen_jobs_def)
  with cleanup_loop_all_ok [OF loop assms(2)] show ?thesis by simp
qed

lemma close_seen_jobs_cache:
  "seen_jobs_cache (close_seen_jobs w m) = seen_jobs_cache m"
  by (simp add: close_seen_jobs_def save_to_local_file_def)

lemma fetcher_cleanup_cache:
  "seen_jobs_cache (fetcher_cleanup old ok w f m) =
     (if seen_jobs_bound f \<and> seen_jobs_cache m \<noteq> {}
      then seen_jobs_cache (cleanup_seen_jobs old ok m) else seen_jobs_cache m)"
  by (simp add: fetcher_cleanup_def close_seen_jobs_cache)

lemma load_seen_jobs_mono: "seen_jobs_cache m \<subseteq> seen_jobs_cache (load_seen_jobs docs m)"
  by (cases docs; cases "local_seen_jobs_file m")
     (auto simp: load_seen_jobs_def load_local_file_def)

lemma mark_seen_cache:
  "seen_jobs_cache (mark_seen remote_ok w u data m) =
     (case u of None \<Rightarrow> seen_jobs_cache m
      | Some s \<Rightarrow> if s = [] then seen_jobs_cache m else insert s (seen_jobs_cache m))"
  by (cases u) (simp_all add: mark_seen_def save_to_local_file_def Let_def)

lemma mark_seen_mono: "seen_jobs_cache m \<subseteq> seen_jobs_cache (mark_seen remote_ok w u data m)"
  by (cases u) (auto simp: mark_seen_cache)

lemma apply_op_mono:
  "\<not> is_cleanup op \<Longrightarrow> seen_jobs_cache m \<subseteq> seen_jobs_cache (apply_op op m)"
  by (cases op) (simp_all add: load_seen_jobs_mono mark_seen_mono)

lemma run_ops_mono:
  "\<forall>op \<in> set ops. \<not> is_cleanup op \<Longrightarrow> seen_jobs_cache m \<subseteq> seen_jobs_cache (run_ops ops m)"
proof (induction ops arbitrary: m)
  case Nil
  then show ?case by (simp add: run_ops_def)
next
  case (Cons op ops)
  have "seen_jobs_cache m \<subseteq> seen_jobs_cache (apply_op op m)"
    using Cons.prems by (simp add: apply_op_mono)
  also have "\<dots> \<subseteq> seen_jobs_cache (run_ops ops (apply_op op m))"
    using Cons.IH [of "apply_op op m"] Cons.prems by simp
  finally show ?case by (simp add: run_ops_def)
qed

lemma save_internship_seen:
  "seen_urls (save_internship remote_ok w i self) = insert (url i) (seen_urls self)"
  by (simp add: save_internship_def Let_def)


text \<open>
  Claim C2, as amended.  Hydration, membership tests and recording never remove
  an identity: after any run of such operations the cache contains what it
  contained before, and so does the orchestrator's set after \<open>save_internship\<close>.
  Adapter cleanup only removes: what it removes are identities of the old
  documents that the remote store returned, and when the client is there, the
  adapter is bound to a non-empty cache and every commit succeeds, it removes all
  of them.
\<close>

theorem dedup_append_only:
  "((\<forall>op \<in> set ops. \<not> is_cleanup op) \<longrightarrow>
       seen_jobs_cache m \<subseteq> seen_jobs_cache (run_ops ops m))
   \<and> seen_urls self \<subseteq> seen_urls (save_internship remote_ok w i self)
   \<and> seen_jobs_cache (fetcher_cleanup old commit_ok w f m) \<subseteq> seen_jobs_cache m
   \<and> seen_jobs_cache m - set (case old of Yields ds \<Rightarrow> ds | YieldsThenRaises ds \<Rightarrow> ds)
        \<subseteq> seen_jobs_cache (fetcher_cleanup old commit_ok w f m)
   \<and> (db m \<and> seen_jobs_bound f \<and> seen_jobs_cache m \<noteq> {} \<and> (\<forall>n. commit_ok n) \<longrightarrow>
        seen_jobs_cache (fetcher_cleanup (Yields ids) commit_ok w f m)
          = seen_jobs_cache m - set ids)"
proof (intro conjI impI)
  assume "\<forall>op \<in> set ops. \<not> is_cleanup op"
  then show "seen_jobs_cache m \<subseteq> seen_jobs_cache (run_ops ops m)" by (rule run_ops_mono)
next
  show "seen_urls self \<subseteq> seen_urls (save_internship remote_ok w i self)"
    by (auto simp: save_internship_seen)
next
  show "seen_jobs_cache (fetcher_cleanup old commit_ok w f m) \<subseteq> seen_jobs_cache m"
    using cleanup_seen_jobs_cache [of old commit_ok m] by (simp add: fetcher_cleanup_cache)
next
  show "seen_jobs_cache m - set (case old of Yields ds \<Rightarrow> ds | YieldsThenRaises ds \<Rightarrow> ds)
        \<subseteq> seen_jobs_cache (fetcher_cleanup old commit_ok w f m)"
    using cleanup_seen_jobs_cache [of old commit_ok m] by (auto simp: fetcher_cleanup_cache)
next
  assume a: "db m \<and> seen_jobs_bound f \<and> seen_jobs_cache m \<noteq> {} \<and> (\<forall>n. commit_ok n)"
  then have "seen_jobs_cache (cleanup_seen_jobs (Yields ids) commit_ok m) = seen_jobs_cache m - set ids"
    by (intro cleanup_seen_jobs_exact) simp_all
  with a show "seen_jobs_cache (fetcher_cleanup (Yields ids) commit_ok w f m)
          = seen_jobs_cache m - set ids"
    by (simp add: fetcher_cleanup_cache)
qed

theorem dedup_append_only_witness:
  "{''a''} \<subseteq> seen_jobs_cache
       (run_ops [Hydrate (Yields [''b'']), HasSeen ''a'', MarkSeen True Written (Some ''c'') None]
          \<lparr>seen_jobs_cache = {''a''}, db = True, local_seen_jobs_file = NoFile, effects = []\<rparr>)
   \<and> seen_jobs_cache
       (fetcher_cleanup (Yields [''a'']) (\<lambda>n. True) Written
          \<lparr>source_name = ''rss'', max_days_old = 7, seen_jobs_bound = True\<rparr>
          \<lparr>seen_jobs_cache = {''a''}, db = True, local_seen_jobs_file = NoFile, effects = []\<rparr>)
     = {''a''} - set [''a'']"
proof -
  let ?m = "\<lparr>seen_jobs_cache = {''a''}, db = True, local_seen_jobs_file = NoFile, effects = []\<rparr>"
  let ?f = "\<lparr>source_name = ''rss'', max_days_old = 7, seen_jobs_bound = True\<rparr>"
  let ?ops = "[Hydrate (Yields [''b'']), HasSeen ''a'', MarkSeen True Written (Some ''c'') None]"
  note t = dedup_append_only [of ?ops ?m "\<lparr>seen_urls = {}, seen_urls_file = NoFile, bot_effects = []\<rparr>"
      True Written _ "Yields [''a'']" "\<lambda>n. True" ?f "[''a'']"]
  have h1: "\<forall>op \<in> set ?ops. \<not> is_cleanup op" by simp
  have h2: "db ?m \<and> seen_jobs_bound ?f \<and> seen_jobs_cache ?m \<noteq> {} \<and> (\<forall>n::nat. True)" by simp
  have "seen_jobs_cache ?m \<subseteq> seen_jobs_cache (run_ops ?ops ?m)"
    by (rule mp [OF conjunct1 [OF t] h1])
  then have c1: "{''a''} \<subseteq> seen_jobs_cache (run_ops ?ops ?m)" by simp
  have "seen_jobs_cache (fetcher_cleanup (Yields [''a'']) (\<lambda>n. True) Written ?f ?m)
      = seen_jobs_cache ?m - set [''a'']"
    by (rule mp [OF conjunct2 [OF conjunct2 [OF conjunct2 [OF conjunct2 [OF t]]]] h2])
  then have c2: "seen_jobs_cache (fetcher_cleanup (Yields [''a'']) (\<lambda>n. True) Written ?f ?m)
      = {''a''} - set [''a'']" by simp
  show ?thesis by (intro conjI c1 c2)
qed

text \<open>
  Claim C2 as stated fails: the cleanup of an adapter removes from the cache the
  identity of a document that the remote store reports as older than the cutoff.
\<close>

theorem dedup_append_only_counterexample:
  "''a'' \<in> seen_jobs_cache
       \<lparr>seen_jobs_cache = {''a''}, db = True, local_seen_jobs_file = NoFile, effects = []\<rparr>
   \<and> ''a'' \<notin> seen_jobs_cache
       (run_ops [Cleanup \<lparr>source_name = ''rss'', max_days_old = 7, seen_jobs_bound = True\<rparr>
                   (Yields [''a'']) (\<lambda>n. True) Written]
          \<lparr>seen_jobs_cache = {''a''}, db = True, local_seen_jobs_file = NoFile, effects = []\<rparr>)"
  by (simp add: run_ops_def fetcher_cleanup_def close_seen_jobs_def save_to_local_file_def
      cleanup_seen_jobs_def Let_def)

section \<open>Recording an identity\<close>

text \<open>
  Claim C7, as amended.  After \<open>save_internship\<close> returns, the URL of the record
  is in the orchestrator's seen set; after \<open>mark_seen\<close> returns, a non-empty URL
  is in the cache.  Both hold whether the remote write and the write of the local
  mirror returned or raised.
\<close>

theorem record_no_rollback:
  "url i \<in> seen_urls (save_internship remote_ok w i self)
   \<and> (u \<noteq> [] \<longrightarrow> u \<in> seen_jobs_cache (mark_seen remote_ok w (Some u) data m))"
  by (simp add: save_internship_seen mark_seen_cache)

theorem record_no_rollback_witness:
  "''https://example.com/jobs/1'' \<in> seen_jobs_cache
      (mark_seen False DumpFails (Some ''https://example.com/jobs/1'') None
         \<lparr>seen_jobs_cache = {}, db = True, local_seen_jobs_file = NoFile, effects = []\<rparr>)"
proof -
  have h: "''https://example.com/jobs/1'' \<noteq> []" by simp
  show ?thesis
    by (rule mp [OF conjunct2 [OF record_no_rollback] h])
qed

text \<open>
  Claim C7 as stated fails for the empty identity: \<open>mark_seen\<close> returns before
  the addition, so the empty URL is not in the cache afterwards, even with both
  writes available.
\<close>

theorem record_no_rollback_counterexample:
  "'''' \<notin> seen_jobs_cache
      (mark_seen True Written (Some '''') None
         \<lparr>seen_jobs_cache = {}, db = True, local_seen_jobs_file = NoFile, effects = []\<rparr>)"
  by (simp add: mark_seen_def)

text \<open>
  Claim C9.  Recording an identity a second time leaves the seen set as the
  first recording left it, and so its cardinality, whatever the outcomes of the
  remote and local writes of the two calls; for \<open>save_internship\<close> and for
  \<open>mark_seen\<close>.
\<close>

theorem record_idempotent:
  "seen_urls (save_internship remote_ok2 w2 i (save_internship remote_ok1 w1 i self))
     = seen_urls (save_internship remote_ok1 w1 i self)
   \<and> card (seen_urls (save_internship remote_ok2 w2 i (save_internship remote_ok1 w1 i self)))
     = card (seen_urls (save_internship remote_ok1 w1 i self))
   \<and> seen_jobs_cache (mark_seen remote_ok2 w2 u data2 (mark_seen remote_ok1 w1 u data1 m))
     = seen_jobs_cache (mark_seen remote_ok1 w1 u data1 m)
   \<and> card (seen_jobs_cache (mark_seen remote_ok2 w2 u data2 (mark_seen remote_ok1 w1 u data1 m)))
     = card (seen_jobs_cache (mark_seen remote_ok1 w1 u data1 m))"
proof -
  have a: "seen_urls (save_internship remote_ok2 w2 i (save_internship remote_ok1 w1 i self))
     = seen_urls (save_internship remote_ok1 w1 i self)"
    by (simp add: save_internship_seen)
  have b: "seen_jobs_cache (mark_seen remote_ok2 w2 u data2 (mark_seen remote_ok1 w1 u data1 m))
     = seen_jobs_cache (mark_seen remote_ok1 w1 u data1 m)"
    by (cases u) (simp_all add: mark_seen_cache)
  show ?thesis by (simp only: a b)
qed

theorem record_idempotent_witness:
  "seen_jobs_cache
      (mark_seen True Written (Some ''u'') None
        (mark_seen False OpenFails (Some ''u'') None
           \<lparr>seen_jobs_cache = {''v''}, db = True, local_seen_jobs_file = NoFile, effects = []\<rparr>))
     = {''u'', ''v''}
   \<and> card (seen_jobs_cache
      (mark_seen True Written (Some ''u'') None
        (mark_seen False OpenFails (Some ''u'') None
           \<lparr>seen_jobs_cache = {''v''}, db = True, local_seen_jobs_file = NoFile, effects = []\<rparr>)))
     = 2"
proof -
  let ?m = "\<lparr>seen_jobs_cache = {''v''}, db = True, local_seen_jobs_file = NoFile, effects = []\<rparr>"
  note t = record_idempotent [of True Written _ False OpenFails _ "Some ''u''" None None ?m]
  have one: "seen_jobs_cache (mark_seen False OpenFails (Some ''u'') None ?m) = {''u'', ''v''}"
    by (simp add: mark_seen_cache)
  have c: "card {''u'', ''v''} = 2" by simp
  from t one c show ?thesis by (simp only:)
qed

text \<open>
  Claim C10.  For a falsy \<open>url\<close> (\<open>None\<close> or the empty string) \<open>mark_seen\<close>
  returns the state it was given: the cache, the local mirror and the log of
  remote calls and file writes are unchanged.
\<close>

theorem mark_seen_falsy_noop:
  "mark_seen remote_ok w None data m = m \<and> mark_seen remote_ok w (Some []) data m = m"
  by (simp add: mark_seen_def)

theorem mark_seen_falsy_noop_witness:
  "mark_seen True Written (Some '''') None
      \<lparr>seen_jobs_cache = {''v''}, db = True, local_seen_jobs_file = NoFile, effects = []\<rparr>
    = \<lparr>seen_jobs_cache = {''v''}, db = True, local_seen_jobs_file = NoFile, effects = []\<rparr>
   \<and> effects (mark_seen True Written None None
      \<lparr>seen_jobs_cache = {''v''}, db = True, local_seen_jobs_file = NoFile, effects = []\<rparr>) = []
   \<and> effects (mark_seen True Written (Some ''u'') None
      \<lparr>seen_jobs_cache = {''v''}, db = True, local_seen_jobs_file = NoFile, effects = []\<rparr>)
     = [RemoteSet ''u'' True, FileWrite]"
proof -
  let ?m = "\<lparr>seen_jobs_cache = {''v''}, db = True, local_seen_jobs_file = NoFile, effects = []\<rparr>"
  note t = mark_seen_falsy_noop [of True Written None ?m]
  have e: "effects (mark_seen True Written (Some ''u'') None ?m) = [RemoteSet ''u'' True, FileWrite]"
    by (simp add: mark_seen_def save_to_local_file_def Let_def)
  from t e show ?thesis by simp
qed

section \<open>Fan-out and record identity\<close>







text \<open>
  Claim C8, as amended.  Two records are equal exactly when their \<open>url\<close> fields
  are equal; for records made by the constructor that is when the URLs given to
  it are equal after \<open>strip()\<close>, the only normalisation applied.  Equal records
  have equal hashes, and a record is not equal to an object of another class.
\<close>

theorem identity_equality:
  "(internship_eq r1 (Obj_Internship r2) \<longleftrightarrow> url r1 = url r2)
   \<and> (internship_eq (Internship_init n1 t1 c1 l1 u1 s1 p1 d1 k1)
         (Obj_Internship (Internship_init n2 t2 c2 l2 u2 s2 p2 d2 k2))
       \<longleftrightarrow> py_strip u1 = py_strip u2)
   \<and> (internship_eq r1 (Obj_Internship r2) \<longrightarrow>
        internship_hash str_hash r1 = internship_hash str_hash r2)
   \<and> \<not> internship_eq r1 Obj_Other"
  by (simp add: internship_eq_def internship_hash_def Internship_init_def)

lemma ex_strip:
  "py_strip ''  https://example.com/jobs/1 '' = ''https://example.com/jobs/1''"
  "py_strip ''https://example.com/jobs/1'' = ''https://example.com/jobs/1''"
  "py_strip ''HTTPS://EXAMPLE.COM/jobs/1'' = ''HTTPS://EXAMPLE.COM/jobs/1''"
  "py_strip ''https://example.com'' = ''https://example.com''"
  "py_strip ''https://example.com/'' = ''https://example.com/''"
  by (simp_all add: py_strip_def py_isspace_def)

theorem identity_equality_witness:
  "internship_eq
     (Internship_init 1700000000000000 ''Python Intern'' ''Acme'' ''Remote''
        ''  https://example.com/jobs/1 '' ''rss'' VNone None [])
     (Obj_Internship
        (Internship_init 1700000060000000 ''Intern (Python)'' ''Acme Ltd'' ''Anywhere''
           ''https://example.com/jobs/1'' ''remotive'' VNone None []))
   \<and> internship_hash (\<lambda>s. int (length s))
        (Internship_init 1700000000000000 ''Python Intern'' ''Acme'' ''Remote''
           ''  https://example.com/jobs/1 '' ''rss'' VNone None [])
     = internship_hash (\<lambda>s. int (length s))
        (Internship_init 1700000060000000 ''Intern (Python)'' ''Acme Ltd'' ''Anywhere''
           ''https://example.com/jobs/1'' ''remotive'' VNone None [])"
proof -
  let ?r1 = "Internship_init 1700000000000000 ''Python Intern'' ''Acme'' ''Remote''
        ''  https://example.com/jobs/1 '' ''rss'' VNone None []"
  let ?r2 = "Internship_init 1700000060000000 ''Intern (Python)'' ''Acme Ltd'' ''Anywhere''
           ''https://example.com/jobs/1'' ''remotive'' VNone None []"
  note t = identity_equality [of ?r1 ?r2 1700000000000000 "''Python Intern''" "''Acme''"
      "''Remote''" "''  https://example.com/jobs/1 ''" "''rss''" VNone None "[]"
      1700000060000000 "''Intern (Python)''" "''Acme Ltd''" "''Anywhere''"
      "''https://example.com/jobs/1''" "''remotive''" VNone None "[]" "\<lambda>s. int (length s)"]
  have s: "py_strip ''  https://example.com/jobs/1 '' = py_strip ''https://example.com/jobs/1''"
    by (simp only: ex_strip)
  have e: "internship_eq ?r1 (Obj_Internship ?r2)"
    by (rule iffD2 [OF conjunct1 [OF conjunct2 [OF t]] s])
  have h: "internship_hash (\<lambda>s. int (length s)) ?r1 = internship_hash (\<lambda>s. int (length s)) ?r2"
    by (rule mp [OF conjunct1 [OF conjunct2 [OF conjunct2 [OF t]]] e])
  show ?thesis by (intro conjI e h)
qed

text \<open>
  Claim C8 as stated fails: URLs that differ only in the case of scheme and host,
  or only in the trailing slash after the host, give records that are not equal.
\<close>

theorem identity_equality_counterexample:
  "\<not> internship_eq
       (Internship_init 1700000000000000 ''Python Intern'' ''Acme'' ''Remote''
          ''HTTPS://EXAMPLE.COM/jobs/1'' ''rss'' VNone None [])
       (Obj_Internship
          (Internship_init 1700000000000000 ''Python Intern'' ''Acme'' ''Remote''
             ''https://example.com/jobs/1'' ''rss'' VNone None []))
   \<and> \<not> internship_eq
       (Internship_init 1700000000000000 ''Python Intern'' ''Acme'' ''Remote''
          ''https://example.com'' ''rss'' VNone None [])
       (Obj_Internship
          (Internship_init 1700000000000000 ''Python Intern'' ''Acme'' ''Remote''
             ''https://example.com/'' ''rss'' VNone None []))"
  by (simp add: internship_eq_def Internship_init_def ex_strip)

end
